theory Spec2Isabelle
  imports Complex_Main "HOL-Library.Multiset"
begin

section \<open>Strings\<close>

text \<open>
  A JavaScript string is a sequence of UTF-16 code units. The model uses \<open>string\<close>
  (\<open>char list\<close>) and reads each \<open>char\<close> as one code unit in the range U+0000..U+00FF,
  so \<open>length\<close> is JavaScript's \<open>.length\<close> for text in that range. Numbers that JavaScript
  holds as doubles are modelled exactly: scores as \<open>rat\<close>, counters as \<open>nat\<close>, clock readings
  (milliseconds) as \<open>int\<close>. A sum of several increments can differ from the double by
  rounding; the properties stated of scores are bounds, and concrete values that the
  doubles give as well.
\<close>

definition toLowerChar :: "char \<Rightarrow> char" where
  "toLowerChar c =
     (let n = (of_char c :: nat)
      in if (65 \<le> n \<and> n \<le> 90) \<or> (192 \<le> n \<and> n \<le> 222 \<and> n \<noteq> 215)
         then char_of (n + 32) else c)"

definition toLowerCase :: "string \<Rightarrow> string" where
  "toLowerCase s = map toLowerChar s"

text \<open>\<open>String.prototype.includes\<close>: the argument occurs as a contiguous substring.\<close>

primrec startsWith :: "string \<Rightarrow> string \<Rightarrow> bool" where
  "startsWith s [] = True"
| "startsWith s (k # ks) = (case s of [] \<Rightarrow> False | c # cs \<Rightarrow> c = k \<and> startsWith cs ks)"

primrec includesStr :: "string \<Rightarrow> string \<Rightarrow> bool" where
  "includesStr [] k = (k = [])"
| "includesStr (c # cs) k = (startsWith (c # cs) k \<or> includesStr cs k)"

text \<open>White space removed by \<open>String.prototype.trim\<close>, within U+0000..U+00FF.\<close>

definition isWhiteSpace :: "char \<Rightarrow> bool" where
  "isWhiteSpace c = ((of_char c :: nat) \<in> {9, 10, 11, 12, 13, 32, 160})"

definition trim :: "string \<Rightarrow> string" where
  "trim s = rev (dropWhile isWhiteSpace (rev (dropWhile isWhiteSpace s)))"

text \<open>\<open>s.replace(/^["']|["']$/g, '')\<close>: one quote character is removed at the start, and
  one at the end of what remains.\<close>

definition isQuote :: "char \<Rightarrow> bool" where
  "isQuote c = (c = CHR 0x22 \<or> c = CHR 0x27)"

definition stripLeadingQuote :: "string \<Rightarrow> string" where
  "stripLeadingQuote s = (case s of [] \<Rightarrow> [] | c # cs \<Rightarrow> if isQuote c then cs else s)"

definition stripTrailingQuote :: "string \<Rightarrow> string" where
  "stripTrailingQuote s = (if s \<noteq> [] \<and> isQuote (last s) then butlast s else s)"

definition stripQuotes :: "string \<Rightarrow> string" where
  "stripQuotes s = stripTrailingQuote (stripLeadingQuote s)"

text \<open>\<open>s.split(/[.!?]+/)\<close>: the pieces between maximal runs of terminators; a run at the
  start or at the end of the string leaves an empty piece there. The flag says that the
  previous character belonged to a run.\<close>

definition isTerminator :: "char \<Rightarrow> bool" where
  "isTerminator c = (c = CHR ''.'' \<or> c = CHR ''!'' \<or> c = CHR ''?'')"

primrec splitRuns :: "bool \<Rightarrow> string \<Rightarrow> string list" where
  "splitRuns inRun [] = [[]]"
| "splitRuns inRun (c # cs) =
     (if isTerminator c then (if inRun then splitRuns True cs else [] # splitRuns True cs)
      else (case splitRuns False cs of [] \<Rightarrow> [[c]] | f # fs \<Rightarrow> (c # f) # fs))"

definition splitSentences :: "string \<Rightarrow> string list" where
  "splitSentences s = splitRuns False s"

section \<open>Data model\<close>

text \<open>An event object. The scorer reads the property \<open>type\<close>; \<open>None\<close> is an object without
  that property (the read gives \<open>undefined\<close>).\<close>

record event =
  ev_type :: "string option"
  ev_name :: string
  ev_timestamp :: int
  ev_data :: string

record survey_response =
  sr_question :: string
  sr_answer :: string

text \<open>\<open>Record<string, number>\<close> with its insertion order, which \<open>Object.entries\<close> and
  \<open>Object.keys\<close> follow.\<close>

type_synonym scores = "(string \<times> rat) list"

section \<open>Trait scorer\<close>

definition traitNames :: "string list" where
  "traitNames = [''Analytical'', ''Creative'', ''Social'', ''Practical'',
                 ''Confident'', ''Cautious'', ''Efficient'', ''Thorough'']"

definition initialScores :: scores where
  "initialScores = map (\<lambda>k. (k, 0)) traitNames"

text \<open>\<open>scores[k] += d\<close> on a key the object has.\<close>

definition addScore :: "string \<Rightarrow> rat \<Rightarrow> scores \<Rightarrow> scores" where
  "addScore k d sc = map (\<lambda>(k', v). if k' = k then (k', v + d) else (k', v)) sc"

definition score :: "scores \<Rightarrow> string \<Rightarrow> rat option" where
  "score sc k = map_of sc k"

text \<open>A property key made from a value: \<open>undefined\<close> becomes the key "undefined".\<close>

definition propertyKey :: "string option \<Rightarrow> string" where
  "propertyKey t = (case t of None \<Rightarrow> ''undefined'' | Some s \<Rightarrow> s)"

text \<open>The reducer \<open>acc[type] = (acc[type] || 0) + 1\<close>. Only the keys click, hover, scroll
  and keypress are read afterwards, none of which \<open>Object.prototype\<close> defines.\<close>

definition countType :: "(string \<rightharpoonup> nat) \<Rightarrow> string option \<Rightarrow> (string \<rightharpoonup> nat)" where
  "countType acc t =
     acc(propertyKey t \<mapsto> (case acc (propertyKey t) of None \<Rightarrow> 0 | Some n \<Rightarrow> n) + 1)"

definition eventCounts :: "event list \<Rightarrow> (string \<rightharpoonup> nat)" where
  "eventCounts events = foldl countType Map.empty (map ev_type events)"

text \<open>\<open>eventCounts[k] > n\<close>: the comparison of \<open>undefined\<close> with a number is false.\<close>

definition countExceeds :: "nat option \<Rightarrow> nat \<Rightarrow> bool" where
  "countExceeds c n = (case c of None \<Rightarrow> False | Some m \<Rightarrow> m > n)"

definition eventRules :: "event list \<Rightarrow> scores \<Rightarrow> scores" where
  "eventRules events sc =
     (let counts = eventCounts events;
          s1 = (if countExceeds (counts ''click'') 10 then addScore ''Practical'' (3/10) sc else sc);
          s2 = (if countExceeds (counts ''hover'') 5 then addScore ''Cautious'' (2/10) s1 else s1);
          s3 = (if countExceeds (counts ''scroll'') 3 then addScore ''Thorough'' (2/10) s2 else s2)
      in if countExceeds (counts ''keypress'') 20 then addScore ''Efficient'' (3/10) s3 else s3)"

definition transcriptRules :: "string \<Rightarrow> scores \<Rightarrow> scores" where
  "transcriptRules transcript sc =
     (let transcriptLower = toLowerCase transcript;
          s1 = (if includesStr transcriptLower ''think'' \<or> includesStr transcriptLower ''analyze''
                then addScore ''Analytical'' (4/10) sc else sc);
          s2 = (if includesStr transcriptLower ''creative'' \<or> includesStr transcriptLower ''imagine''
                then addScore ''Creative'' (4/10) s1 else s1);
          s3 = (if includesStr transcriptLower ''people'' \<or> includesStr transcriptLower ''team''
                then addScore ''Social'' (4/10) s2 else s2)
      in if includesStr transcriptLower ''confident'' \<or> includesStr transcriptLower ''sure''
         then addScore ''Confident'' (3/10) s3 else s3)"

text \<open>The two survey rules. A string is truthy when it is not empty.\<close>

definition confidenceRule :: "survey_response \<Rightarrow> bool" where
  "confidenceRule r =
     (sr_question r \<noteq> [] \<and> sr_answer r \<noteq> [] \<and>
      includesStr (toLowerCase (sr_question r)) ''confidence'' \<and>
      includesStr (toLowerCase (sr_answer r)) ''high'')"

definition preferenceRule :: "survey_response \<Rightarrow> bool" where
  "preferenceRule r =
     (sr_question r \<noteq> [] \<and> sr_answer r \<noteq> [] \<and>
      includesStr (toLowerCase (sr_question r)) ''preference'' \<and>
      includesStr (toLowerCase (sr_answer r)) ''creative'')"

text \<open>The body of \<open>surveyResponses.forEach\<close>, run once for every response.\<close>

definition surveyStep :: "scores \<Rightarrow> survey_response \<Rightarrow> scores" where
  "surveyStep sc r =
     (let s1 = (if confidenceRule r then addScore ''Confident'' (2/10) sc else sc)
      in if preferenceRule r then addScore ''Creative'' (2/10) s1 else s1)"

definition surveyRules :: "survey_response list \<Rightarrow> scores \<Rightarrow> scores" where
  "surveyRules surveyResponses sc = foldl surveyStep sc surveyResponses"

definition normalize :: "scores \<Rightarrow> scores" where
  "normalize sc = map (\<lambda>(k, v). (k, min (max v 0) 1)) sc"

definition computeTraitScores :: "event list \<Rightarrow> string \<Rightarrow> survey_response list \<Rightarrow> scores" where
  "computeTraitScores events transcript surveyResponses =
     normalize (surveyRules surveyResponses (transcriptRules transcript (eventRules events initialScores)))"

section \<open>Text extractors\<close>

definition painKeywords :: "string list" where
  "painKeywords =
     [''frustrated'', ''confused'', ''difficult'', ''hard'', ''problem'', ''issue'',
      ''doesn'' @ [CHR 0x27] @ ''t work'', ''broken'', ''slow'', ''complicated'', ''unclear'',
      ''annoying'', ''bothersome'', ''trouble'', ''struggle'', ''challenge'']"

text \<open>The body of \<open>sentences.forEach\<close> in \<open>extractPainPoints\<close>; \<open>push\<close> appends.\<close>

definition painStep :: "string list \<Rightarrow> string \<Rightarrow> string list" where
  "painStep painPoints sentence =
     (let lowerSentence = toLowerCase sentence
      in if list_ex (\<lambda>keyword. includesStr lowerSentence keyword) painKeywords
         then (let cleanSentence = stripQuotes (trim sentence)
               in if length cleanSentence > 10 \<and> length cleanSentence < 200
                  then painPoints @ [cleanSentence] else painPoints)
         else painPoints)"

definition extractPainPoints :: "string \<Rightarrow> string list" where
  "extractPainPoints transcript =
     (let sentences = filter (\<lambda>s. length (trim s) > 10) (splitSentences transcript)
      in take 3 (foldl painStep [] sentences))"

definition quoteStep :: "string list \<Rightarrow> string \<Rightarrow> string list" where
  "quoteStep quotes sentence =
     (let cleanSentence = stripQuotes (trim sentence)
      in if length cleanSentence > 20 \<and> length cleanSentence < 150
         then (let lowerSentence = toLowerCase cleanSentence
               in if includesStr lowerSentence ''i '' \<or> includesStr lowerSentence ''me '' \<or>
                     includesStr lowerSentence ''my '' \<or> includesStr lowerSentence ''think'' \<or>
                     includesStr lowerSentence ''feel'' \<or> includesStr lowerSentence ''like'' \<or>
                     includesStr lowerSentence ''prefer''
                  then quotes @ [cleanSentence] else quotes)
         else quotes)"

definition extractQuotes :: "string \<Rightarrow> string list" where
  "extractQuotes transcript =
     (let sentences = filter (\<lambda>s. length (trim s) > 15) (splitSentences transcript)
      in take 5 (foldl quoteStep [] sentences))"

section \<open>Name generator\<close>

definition names :: "string list" where
  "names = [''Alex'', ''Jordan'', ''Casey'', ''Taylor'', ''Morgan'', ''Riley'', ''Quinn'', ''Avery'',
            ''Sam'', ''Drew'', ''Blake'', ''Cameron'', ''Jamie'', ''Parker'', ''Reese'', ''Dakota'']"

text \<open>\<open>Object.entries(traitScores).sort(([,a], [,b]) => b - a)\<close>: the sort is stable, so it
  is the insertion sort on the negated score.\<close>

definition sortByScoreDesc :: "scores \<Rightarrow> scores" where
  "sortByScoreDesc sc = sort_key (\<lambda>(k, v). - v) sc"

text \<open>\<open>rnd\<close> is the value of \<open>Math.floor(Math.random() * names.length)\<close>. A read outside the
  array gives \<open>undefined\<close>, which the template prints as "undefined".\<close>

definition generatePersonaName :: "scores \<Rightarrow> nat \<Rightarrow> string" where
  "generatePersonaName traitScores rnd =
     (let dominantTraits = map fst (take 2 (sortByScoreDesc traitScores));
          randomName = (if rnd < length names then names ! rnd else ''undefined'');
          traitDescriptor =
            (case dominantTraits of [] \<Rightarrow> ''balanced''
             | t # ts \<Rightarrow> if toLowerCase t = [] then ''balanced'' else toLowerCase t)
      in randomName @ '' the '' @ traitDescriptor)"

section \<open>Persona store\<close>

record persona =
  p_id :: string
  p_userId :: string
  p_runId :: string
  p_name :: string
  p_traitScores :: scores
  p_painPoints :: "string list"
  p_quotes :: "string list"
  p_createdAt :: int
  p_updatedAt :: int

text \<open>The argument of \<open>create\<close>: a persona without id and timestamps.\<close>

record persona_data =
  d_userId :: string
  d_runId :: string
  d_name :: string
  d_traitScores :: scores
  d_painPoints :: "string list"
  d_quotes :: "string list"

text \<open>The argument of \<open>update\<close>: any of the fields other than id and creation time.\<close>

record persona_updates =
  u_userId :: "string option"
  u_runId :: "string option"
  u_name :: "string option"
  u_traitScores :: "scores option"
  u_painPoints :: "string list option"
  u_quotes :: "string list option"

record persona_store =
  personas :: "persona list"
  nextId :: nat

definition newPersonaStore :: persona_store where
  "newPersonaStore = \<lparr>personas = [], nextId = 1\<rparr>"

text \<open>\<open>Number.prototype.toString\<close> on a natural number: its decimal digits.\<close>

definition digitChar :: "nat \<Rightarrow> char" where
  "digitChar d = char_of (48 + d)"

fun toString :: "nat \<Rightarrow> string" where
  "toString n = (if n < 10 then [digitChar n] else toString (n div 10) @ [digitChar (n mod 10)])"

declare toString.simps [simp del]

text \<open>Every operation takes the reading \<open>now\<close> of the clock that its \<open>new Date()\<close> gives.\<close>

definition create :: "persona_data \<Rightarrow> int \<Rightarrow> persona_store \<Rightarrow> persona \<times> persona_store" where
  "create data now st =
     (let persona = \<lparr>p_id = toString (nextId st), p_userId = d_userId data, p_runId = d_runId data,
                      p_name = d_name data, p_traitScores = d_traitScores data,
                      p_painPoints = d_painPoints data, p_quotes = d_quotes data,
                      p_createdAt = now, p_updatedAt = now\<rparr>
      in (persona, st\<lparr>personas := personas st @ [persona], nextId := nextId st + 1\<rparr>))"

definition getById :: "persona_store \<Rightarrow> string \<Rightarrow> persona option" where
  "getById st i = find (\<lambda>persona. p_id persona = i) (personas st)"

definition newestFirst :: "persona list \<Rightarrow> persona list" where
  "newestFirst ps = sort_key (\<lambda>persona. - p_createdAt persona) ps"

definition getByUserId :: "persona_store \<Rightarrow> string \<Rightarrow> persona list" where
  "getByUserId st userId = newestFirst (filter (\<lambda>persona. p_userId persona = userId) (personas st))"

definition getLatestByUserId :: "persona_store \<Rightarrow> string \<Rightarrow> persona option" where
  "getLatestByUserId st userId =
     (case newestFirst (filter (\<lambda>persona. p_userId persona = userId) (personas st)) of
        [] \<Rightarrow> None | persona # rest \<Rightarrow> Some persona)"

definition getByRunId :: "persona_store \<Rightarrow> string \<Rightarrow> persona option" where
  "getByRunId st runId = find (\<lambda>persona. p_runId persona = runId) (personas st)"

definition assign :: "persona \<Rightarrow> persona_updates \<Rightarrow> int \<Rightarrow> persona" where
  "assign p u now =
     p\<lparr>p_userId := (case u_userId u of None \<Rightarrow> p_userId p | Some v \<Rightarrow> v),
       p_runId := (case u_runId u of None \<Rightarrow> p_runId p | Some v \<Rightarrow> v),
       p_name := (case u_name u of None \<Rightarrow> p_name p | Some v \<Rightarrow> v),
       p_traitScores := (case u_traitScores u of None \<Rightarrow> p_traitScores p | Some v \<Rightarrow> v),
       p_painPoints := (case u_painPoints u of None \<Rightarrow> p_painPoints p | Some v \<Rightarrow> v),
       p_quotes := (case u_quotes u of None \<Rightarrow> p_quotes p | Some v \<Rightarrow> v),
       p_updatedAt := now\<rparr>"

text \<open>\<open>findIndex\<close>: the position of the first match.\<close>

primrec findIndex :: "('a \<Rightarrow> bool) \<Rightarrow> 'a list \<Rightarrow> nat option" where
  "findIndex P [] = None"
| "findIndex P (x # xs) = (if P x then Some 0 else map_option Suc (findIndex P xs))"

definition update :: "string \<Rightarrow> persona_updates \<Rightarrow> int \<Rightarrow> persona_store \<Rightarrow> persona option \<times> persona_store" where
  "update i updates now st =
     (case findIndex (\<lambda>p. p_id p = i) (personas st) of
        None \<Rightarrow> (None, st)
      | Some k \<Rightarrow> (let persona = assign (personas st ! k) updates now
                  in (Some persona, st\<lparr>personas := (personas st)[k := persona]\<rparr>)))"

definition delete :: "string \<Rightarrow> persona_store \<Rightarrow> bool \<times> persona_store" where
  "delete i st =
     (case findIndex (\<lambda>persona. p_id persona = i) (personas st) of
        None \<Rightarrow> (False, st)
      | Some index \<Rightarrow> (True, st\<lparr>personas := take index (personas st) @ drop (Suc index) (personas st)\<rparr>))"

section \<open>Test runs and the two modules that hold them\<close>

record audio_chunk =
  ac_buffer :: string
  ac_timestamp :: int
  ac_size :: nat

text \<open>A test run object. The routes never write \<open>surveyResponses\<close>, so the property can
  be absent; \<open>finalized\<close> is absent (falsy) until the run is finalized.\<close>

record test_run =
  tr_id :: string
  tr_userId :: string
  tr_events :: "event list"
  tr_transcript :: string
  tr_audioChunks :: "audio_chunk list"
  tr_createdAt :: int
  tr_updatedAt :: int
  tr_surveyResponses :: "survey_response list option"
  tr_finalized :: bool
  tr_endTime :: "int option"

text \<open>A JavaScript \<open>Map\<close> object: its entries live in the internal slot that \<open>get\<close> and
  \<open>set\<close> use, apart from the object's own properties. \<open>Object.assign(target, source)\<close>
  copies the own enumerable properties of the source and nothing else.\<close>

record 'v js_map =
  mapData :: "string \<rightharpoonup> 'v"
  ownProps :: "string \<rightharpoonup> string"

definition newMap :: "'v js_map" where
  "newMap = \<lparr>mapData = Map.empty, ownProps = Map.empty\<rparr>"

definition mapGet :: "'v js_map \<Rightarrow> string \<Rightarrow> 'v option" where
  "mapGet m k = mapData m k"

definition mapSet :: "'v js_map \<Rightarrow> string \<Rightarrow> 'v \<Rightarrow> 'v js_map" where
  "mapSet m k v = m\<lparr>mapData := (mapData m)(k \<mapsto> v)\<rparr>"

definition objectAssign :: "'v js_map \<Rightarrow> 'v js_map \<Rightarrow> 'v js_map" where
  "objectAssign target source = target\<lparr>ownProps := ownProps target ++ ownProps source\<rparr>"

text \<open>The module state: \<open>testRuns\<close> of the routes module, \<open>testRuns\<close> of the persona
  service, and the singleton persona store.\<close>

record system =
  routesTestRuns :: "test_run js_map"
  serviceTestRuns :: "test_run js_map"
  personaStore :: persona_store

definition initialSystem :: system where
  "initialSystem = \<lparr>routesTestRuns = newMap, serviceTestRuns = newMap, personaStore = newPersonaStore\<rparr>"

section \<open>Persona service\<close>

datatype error = NotFound string

record persona_result =
  pd_personaId :: string
  pd_persona :: persona

definition setTestRuns :: "test_run js_map \<Rightarrow> system \<Rightarrow> system" where
  "setTestRuns runs sys = sys\<lparr>serviceTestRuns := objectAssign (serviceTestRuns sys) runs\<rparr>"

text \<open>\<open>rnd\<close> is the random index of the name generator, \<open>now\<close> the clock reading. A
  rejected promise is \<open>Inl\<close>; the state is returned in both cases.\<close>

definition buildPersona :: "string \<Rightarrow> nat \<Rightarrow> int \<Rightarrow> system \<Rightarrow> (error + persona_result) \<times> system" where
  "buildPersona runId rnd now sys =
     (case mapGet (serviceTestRuns sys) runId of
        None \<Rightarrow> (Inl (NotFound runId), sys)
      | Some testRun \<Rightarrow>
          (let events = tr_events testRun;
               transcript = tr_transcript testRun;
               surveyResponses = (case tr_surveyResponses testRun of None \<Rightarrow> [] | Some rs \<Rightarrow> rs);
               userId = tr_userId testRun;
               traitScores = computeTraitScores events transcript surveyResponses;
               painPoints = extractPainPoints transcript;
               quotes = extractQuotes transcript;
               name = generatePersonaName traitScores rnd;
               (persona, store) =
                  create \<lparr>d_userId = userId, d_runId = runId, d_name = name,
                           d_traitScores = traitScores, d_painPoints = painPoints,
                           d_quotes = quotes\<rparr> now (personaStore sys)
           in (Inr \<lparr>pd_personaId = p_id persona, pd_persona = persona\<rparr>,
               sys\<lparr>personaStore := store\<rparr>)))"

section \<open>Test run routes\<close>

record response =
  res_status :: nat
  res_success :: bool
  res_message :: string
  res_personaId :: "string option"

definition reply :: "nat \<Rightarrow> bool \<Rightarrow> string \<Rightarrow> response" where
  "reply code ok msg = \<lparr>res_status = code, res_success = ok, res_message = msg, res_personaId = None\<rparr>"

definition newTestRun :: "string \<Rightarrow> string \<Rightarrow> int \<Rightarrow> test_run" where
  "newTestRun runId userId now =
     \<lparr>tr_id = runId, tr_userId = userId, tr_events = [], tr_transcript = [],
      tr_audioChunks = [], tr_createdAt = now, tr_updatedAt = now,
      tr_surveyResponses = None, tr_finalized = False, tr_endTime = None\<rparr>"

text \<open>"Get or create test run", the same in the three writing routes.\<close>

definition getOrCreate :: "string \<Rightarrow> string \<Rightarrow> int \<Rightarrow> test_run js_map \<Rightarrow> test_run" where
  "getOrCreate runId userId now runs =
     (case mapGet runs runId of None \<Rightarrow> newTestRun runId userId now | Some testRun \<Rightarrow> testRun)"

text \<open>A request, after authentication has put \<open>userId\<close> into it. An absent string field of
  the body is the empty string: the routes only test such a field for truthiness.\<close>

datatype request =
  LogEvent string string "int option" "string option" string
| UpdateTranscript string string string
| UploadAudio string "audio_chunk option" string
| Finalize string string

definition logTestRunEvent ::
  "string \<Rightarrow> string \<Rightarrow> int option \<Rightarrow> string option \<Rightarrow> string \<Rightarrow> int \<Rightarrow> system \<Rightarrow> response \<times> system" where
  "logTestRunEvent runId eventName timestamp data userId now sys =
     (if runId = [] \<or> eventName = [] then (reply 400 False ''runId and eventName are required'', sys)
      else
        (let testRun = getOrCreate runId userId now (routesTestRuns sys);
             ev = \<lparr>ev_type = None, ev_name = eventName,
                   ev_timestamp = (case timestamp of None \<Rightarrow> now | Some t \<Rightarrow> if t = 0 then now else t),
                   ev_data = (case data of None \<Rightarrow> ''{}'' | Some d \<Rightarrow> if d = [] then ''{}'' else d)\<rparr>;
             testRun' = testRun\<lparr>tr_events := tr_events testRun @ [ev], tr_updatedAt := now\<rparr>
         in (reply 200 True ''Event logged successfully'',
             sys\<lparr>routesTestRuns := mapSet (routesTestRuns sys) runId testRun'\<rparr>)))"

definition updateTestRunTranscript ::
  "string \<Rightarrow> string \<Rightarrow> string \<Rightarrow> int \<Rightarrow> system \<Rightarrow> response \<times> system" where
  "updateTestRunTranscript runId chunk userId now sys =
     (if runId = [] \<or> chunk = [] then (reply 400 False ''runId and chunk are required'', sys)
      else
        (let testRun = getOrCreate runId userId now (routesTestRuns sys);
             testRun' = testRun\<lparr>tr_transcript := tr_transcript testRun @ chunk, tr_updatedAt := now\<rparr>
         in (reply 200 True ''Transcript updated successfully'',
             sys\<lparr>routesTestRuns := mapSet (routesTestRuns sys) runId testRun'\<rparr>)))"

definition handleTestRunAudioUpload ::
  "string \<Rightarrow> audio_chunk option \<Rightarrow> string \<Rightarrow> int \<Rightarrow> system \<Rightarrow> response \<times> system" where
  "handleTestRunAudioUpload runId file userId now sys =
     (if runId = [] then (reply 400 False ''runId is required'', sys)
      else (case file of
              None \<Rightarrow> (reply 400 False ''Audio file is required'', sys)
            | Some chunk \<Rightarrow>
                (let testRun = getOrCreate runId userId now (routesTestRuns sys);
                     testRun' = testRun\<lparr>tr_audioChunks := tr_audioChunks testRun @ [chunk\<lparr>ac_timestamp := now\<rparr>],
                                        tr_updatedAt := now\<rparr>
                 in (reply 200 True ''Audio chunk uploaded successfully'',
                     sys\<lparr>routesTestRuns := mapSet (routesTestRuns sys) runId testRun'\<rparr>))))"

text \<open>The rejection of \<open>buildPersona\<close> is caught by the route, which answers 500; the
  writes made before it stay.\<close>

definition finalizeTestRun :: "string \<Rightarrow> string \<Rightarrow> nat \<Rightarrow> int \<Rightarrow> system \<Rightarrow> response \<times> system" where
  "finalizeTestRun runId userId rnd now sys =
     (if runId = [] then (reply 400 False ''runId is required'', sys)
      else (case mapGet (routesTestRuns sys) runId of
              None \<Rightarrow> (reply 404 False ''Test run not found'', sys)
            | Some testRun \<Rightarrow>
                (let testRun' = testRun\<lparr>tr_finalized := True, tr_endTime := Some now\<rparr>;
                     sys1 = sys\<lparr>routesTestRuns := mapSet (routesTestRuns sys) runId testRun'\<rparr>;
                     sys2 = setTestRuns (routesTestRuns sys1) sys1
                 in (case buildPersona runId rnd now sys2 of
                       (Inl err, sys3) \<Rightarrow> (reply 500 False ''Failed to finalize test run'', sys3)
                     | (Inr personaData, sys3) \<Rightarrow>
                         ((reply 200 True ''Test run finalized and persona created successfully'')
                            \<lparr>res_personaId := Some (pd_personaId personaData)\<rparr>, sys3)))))"

text \<open>One request served; \<open>rnd\<close> and \<open>now\<close> are the random index and the clock reading
  that the request sees.\<close>

fun handle :: "request \<Rightarrow> nat \<Rightarrow> int \<Rightarrow> system \<Rightarrow> response \<times> system" where
  "handle (LogEvent runId eventName timestamp data userId) rnd now sys =
     logTestRunEvent runId eventName timestamp data userId now sys"
| "handle (UpdateTranscript runId chunk userId) rnd now sys =
     updateTestRunTranscript runId chunk userId now sys"
| "handle (UploadAudio runId file userId) rnd now sys =
     handleTestRunAudioUpload runId file userId now sys"
| "handle (Finalize runId userId) rnd now sys = finalizeTestRun runId userId rnd now sys"

text \<open>A sequence of requests, each with its random index and clock reading, served in
  order from a given state; the responses are collected.\<close>

fun serve :: "(request \<times> nat \<times> int) list \<Rightarrow> system \<Rightarrow> response list \<times> system" where
  "serve [] sys = ([], sys)"
| "serve ((req, rnd, now) # rest) sys =
     (let (res, sys') = handle req rnd now sys;
          (ress, sys'') = serve rest sys'
      in (res # ress, sys''))"

section \<open>Definitions used to state the properties\<close>

text \<open>A state of the system in which the persona service's own map holds one run.\<close>

definition serviceWith :: "string \<Rightarrow> test_run \<Rightarrow> system" where
  "serviceWith runId testRun = initialSystem\<lparr>serviceTestRuns := mapSet newMap runId testRun\<rparr>"

text \<open>The pain point extractor as the specification words it: split at every single
  terminator, drop the fragments shorter than 10 characters after trimming, keep a sentence
  whose lower-cased text contains a pain keyword and whose trimmed, quote-stripped text has
  between 10 and 200 characters, return the first three.\<close>

primrec splitEach :: "string \<Rightarrow> string list" where
  "splitEach [] = [[]]"
| "splitEach (c # cs) =
     (if isTerminator c then [] # splitEach cs
      else (case splitEach cs of [] \<Rightarrow> [[c]] | f # fs \<Rightarrow> (c # f) # fs))"

definition hasPainKeyword :: "string \<Rightarrow> bool" where
  "hasPainKeyword s = (\<exists>keyword \<in> set painKeywords. includesStr (toLowerCase s) keyword)"

definition painPointsStated :: "string \<Rightarrow> string list" where
  "painPointsStated transcript =
     take 3 (map (\<lambda>s. stripQuotes (trim s))
       (filter (\<lambda>s. hasPainKeyword s \<and> 10 \<le> length (stripQuotes (trim s)) \<and>
                     length (stripQuotes (trim s)) \<le> 200)
          (filter (\<lambda>s. \<not> length (trim s) < 10) (splitEach transcript))))"

text \<open>The same with the bounds of the code: more than 10 and fewer than 200 characters.\<close>

definition painPointsStrict :: "string \<Rightarrow> string list" where
  "painPointsStrict transcript =
     take 3 (map (\<lambda>s. stripQuotes (trim s))
       (filter (\<lambda>s. hasPainKeyword s \<and> 10 < length (stripQuotes (trim s)) \<and>
                     length (stripQuotes (trim s)) < 200)
          (filter (\<lambda>s. 10 < length (trim s)) (splitEach transcript))))"

text \<open>Calls of the persona store's writing methods, each with its clock reading, run in
  order; the personas that \<open>create\<close> returned are collected in the order of their creation.\<close>

datatype store_op = Create persona_data | Update string persona_updates | Delete string

fun applyOp :: "store_op \<Rightarrow> int \<Rightarrow> persona_store \<Rightarrow> persona list \<times> persona_store" where
  "applyOp (Create data) now st = (let (persona, st') = create data now st in ([persona], st'))"
| "applyOp (Update i updates) now st = ([], snd (update i updates now st))"
| "applyOp (Delete i) now st = ([], snd (delete i st))"

fun runStore :: "(store_op \<times> int) list \<Rightarrow> persona_store \<Rightarrow> persona list \<times> persona_store" where
  "runStore [] st = ([], st)"
| "runStore ((opn, now) # rest) st =
     (let (created, st') = applyOp opn now st;
          (created', st'') = runStore rest st'
      in (created @ created', st''))"

text \<open>The number that a string of decimal digits denotes.\<close>

definition fromDigits :: "string \<Rightarrow> nat" where
  "fromDigits s = foldl (\<lambda>a c. 10 * a + (of_char c - 48)) 0 s"

text \<open>The number in a persona's identifier, and the invariant of the persona store: the
  identifiers of the stored personas increase along the array, each is the decimal string
  of a number from 1 up to, and not including, the counter.\<close>

definition idNum :: "persona \<Rightarrow> nat" where
  "idNum p = fromDigits (p_id p)"

definition storeInv :: "persona_store \<Rightarrow> bool" where
  "storeInv st =
     (1 \<le> nextId st \<and> sorted_wrt (<) (map idNum (personas st)) \<and>
      (\<forall>p \<in> set (personas st). 1 \<le> idNum p \<and> idNum p < nextId st \<and> p_id p = toString (idNum p)))"

text \<open>A store with two personas created one after the other for the same user and run.\<close>

definition sampleData :: persona_data where
  "sampleData = \<lparr>d_userId = ''u1'', d_runId = ''r1'', d_name = ''Alex the analytical'',
                 d_traitScores = initialScores, d_painPoints = [], d_quotes = []\<rparr>"

definition twoPersonas :: persona_store where
  "twoPersonas = snd (runStore [(Create sampleData, 10), (Create sampleData, 20)] newPersonaStore)"

section \<open>Trait scorer: keys and range\<close>

lemma map_fst_addScore [simp]: "map fst (addScore k d sc) = map fst sc"
  by (induction sc) (auto simp: addScore_def)

lemma score_addScore:
  "score (addScore k d sc) t = (if t = k then map_option (\<lambda>v. v + d) (score sc t) else score sc t)"
  by (induction sc) (auto simp: addScore_def score_def)

lemma map_fst_eventRules [simp]: "map fst (eventRules events sc) = map fst sc"
  by (simp add: eventRules_def Let_def)

lemma map_fst_transcriptRules [simp]: "map fst (transcriptRules transcript sc) = map fst sc"
  by (simp add: transcriptRules_def Let_def)

lemma map_fst_surveyStep [simp]: "map fst (surveyStep sc r) = map fst sc"
  by (simp add: surveyStep_def Let_def)

lemma map_fst_surveyRules [simp]: "map fst (surveyRules rs sc) = map fst sc"
  unfolding surveyRules_def by (induction rs arbitrary: sc) simp_all

lemma map_fst_normalize [simp]: "map fst (normalize sc) = map fst sc"
  by (induction sc) (auto simp: normalize_def)

lemma map_fst_computeTraitScores:
  "map fst (computeTraitScores events transcript surveyResponses) = traitNames"
  by (simp add: computeTraitScores_def initialScores_def comp_def)

lemma score_normalize:
  "score (normalize sc) t = map_option (\<lambda>v. min (max v 0) 1) (score sc t)"
  by (induction sc) (auto simp: normalize_def score_def)

lemma score_normalize_range:
  "score (normalize sc) t = Some v \<Longrightarrow> 0 \<le> v \<and> v \<le> 1"
  by (auto simp: score_normalize)

lemma score_defined: "t \<in> set (map fst sc) \<Longrightarrow> \<exists>v. score sc t = Some v"
  unfolding score_def by (metis map_of_eq_None_iff not_Some_eq set_map)

lemma score_initialScores: "t \<in> set traitNames \<Longrightarrow> score initialScores t = Some 0"
  by (auto simp: initialScores_def traitNames_def score_def)

lemma computeTraitScores_range:
  assumes "t \<in> set traitNames"
  shows "\<exists>v. score (computeTraitScores events transcript surveyResponses) t = Some v \<and> 0 \<le> v \<and> v \<le> 1"
proof -
  let ?sc = "computeTraitScores events transcript surveyResponses"
  from assms have "t \<in> set (map fst ?sc)" by (simp only: map_fst_computeTraitScores)
  then obtain v where v: "score ?sc t = Some v" using score_defined by blast
  then have "0 \<le> v \<and> v \<le> 1"
    unfolding computeTraitScores_def by (rule score_normalize_range)
  with v show ?thesis by blast
qed

section \<open>The click rule\<close>

lemma foldl_countType_other:
  "\<forall>t \<in> set ts. propertyKey t \<noteq> k \<Longrightarrow> foldl countType acc ts k = acc k"
  by (induction ts arbitrary: acc) (auto simp: countType_def)

lemma eventCounts_untyped:
  assumes "\<forall>e \<in> set events. ev_type e = None" and "k \<noteq> ''undefined''"
  shows "eventCounts events k = None"
  unfolding eventCounts_def using assms
  by (subst foldl_countType_other) (auto simp: propertyKey_def)

lemma score_eventRules_Practical:
  "score (eventRules events sc) ''Practical'' =
     (if countExceeds (eventCounts events ''click'') 10
      then map_option (\<lambda>v. v + 3/10) (score sc ''Practical'') else score sc ''Practical'')"
  by (simp add: eventRules_def Let_def score_addScore)

lemma score_transcriptRules_Practical:
  "score (transcriptRules transcript sc) ''Practical'' = score sc ''Practical''"
  by (simp add: transcriptRules_def Let_def score_addScore)

lemma score_surveyRules_Practical:
  "score (surveyRules rs sc) ''Practical'' = score sc ''Practical''"
  unfolding surveyRules_def
  by (induction rs arbitrary: sc) (simp_all add: surveyStep_def Let_def score_addScore)

lemma score_Practical:
  "score (computeTraitScores events transcript surveyResponses) ''Practical'' =
     Some (if countExceeds (eventCounts events ''click'') 10 then 3/10 else 0)"
proof -
  have "score (surveyRules surveyResponses (transcriptRules transcript (eventRules events initialScores)))
          ''Practical'' = Some (if countExceeds (eventCounts events ''click'') 10 then 3/10 else 0)"
    by (simp add: score_surveyRules_Practical score_transcriptRules_Practical
          score_eventRules_Practical score_initialScores traitNames_def)
  then show ?thesis
    by (simp add: computeTraitScores_def score_normalize)
qed

section \<open>The persona service and the routes\<close>

lemmas route_defs = logTestRunEvent_def updateTestRunTranscript_def finalizeTestRun_def
  getOrCreate_def newTestRun_def mapGet_def mapSet_def reply_def initialSystem_def newMap_def
  setTestRuns_def objectAssign_def buildPersona_def newPersonaStore_def

lemma replicate_11: "replicate 11 x = [x, x, x, x, x, x, x, x, x, x, x]"
  by (simp add: numeral_eq_Suc)

lemma buildPersona_Inr:
  assumes "buildPersona runId rnd now sys = (Inr pd, sys')"
  shows "\<exists>testRun. mapGet (serviceTestRuns sys) runId = Some testRun \<and>
           p_traitScores (pd_persona pd) =
             computeTraitScores (tr_events testRun) (tr_transcript testRun)
               (case tr_surveyResponses testRun of None \<Rightarrow> [] | Some rs \<Rightarrow> rs) \<and>
           personas (personaStore sys') = personas (personaStore sys) @ [pd_persona pd]"
  using assms
  by (auto simp: buildPersona_def create_def Let_def split: option.splits)

lemma buildPersona_scores:
  assumes "buildPersona runId rnd now sys = (Inr pd, sys')"
  shows "\<exists>events transcript surveyResponses.
           p_traitScores (pd_persona pd) = computeTraitScores events transcript surveyResponses"
  using buildPersona_Inr [OF assms] by blast

lemma buildPersona_known:
  assumes "mapGet (serviceTestRuns sys) runId = Some testRun"
  shows "\<exists>pd sys'. buildPersona runId rnd now sys = (Inr pd, sys')"
  using assms by (simp add: buildPersona_def create_def Let_def)

lemma mapGet_serviceWith: "mapGet (serviceTestRuns (serviceWith runId testRun)) runId = Some testRun"
  by (simp add: serviceWith_def mapGet_def mapSet_def)

text \<open>No request changes the entries of the persona service's map: \<open>setTestRuns\<close> copies
  own properties only, and nothing else writes to that map.\<close>

lemma handle_service_mapData:
  "mapData (serviceTestRuns (snd (handle req rnd now sys))) = mapData (serviceTestRuns sys)"
proof (cases req)
  case (Finalize runId userId)
  show ?thesis
    unfolding Finalize handle.simps finalizeTestRun_def
    by (auto simp: Let_def setTestRuns_def objectAssign_def buildPersona_def create_def mapGet_def
             split: option.splits prod.splits sum.splits)
qed (auto simp: logTestRunEvent_def updateTestRunTranscript_def handleTestRunAudioUpload_def
          Let_def split: option.splits)

lemma snd_serve_Cons:
  "snd (serve ((req, rnd, now) # rest) sys) = snd (serve rest (snd (handle req rnd now sys)))"
  by (simp split: prod.splits)

lemma serve_service_mapData:
  "mapData (serviceTestRuns (snd (serve reqs sys))) = mapData (serviceTestRuns sys)"
proof (induction reqs arbitrary: sys)
  case Nil
  show ?case by simp
next
  case (Cons r reqs)
  obtain req rnd now where r: "r = (req, rnd, now)" by (cases r)
  have "mapData (serviceTestRuns (snd (serve reqs (snd (handle req rnd now sys))))) =
        mapData (serviceTestRuns sys)"
    by (simp only: Cons.IH handle_service_mapData)
  then show ?case
    by (simp only: r snd_serve_Cons)
qed

lemma served_service_empty:
  "mapGet (serviceTestRuns (snd (serve reqs initialSystem))) runId = None"
  by (simp add: mapGet_def serve_service_mapData initialSystem_def newMap_def)

text \<open>
  C1. \<open>buildPersona\<close> should fail exactly when no test run exists for the identifier, and
  build a persona for a run that the event and transcript routes filled and that was then
  finalized. Evaluated on that very sequence of requests: the run is in the routes' store
  and marked finalized, yet the finalize request is answered 500, \<open>buildPersona\<close> rejects with
  NotFound, and no persona is stored.
\<close>

theorem finalize_existing_run_not_found:
  "let (rs, sys) = serve [(LogEvent ''r1'' ''click'' None None ''u1'', 0, 1),
                          (UpdateTranscript ''r1'' ''I think this is hard.'' ''u1'', 0, 2),
                          (Finalize ''r1'' ''u1'', 0, 3)] initialSystem
   in map res_status rs = [200, 200, 500] \<and>
      map_option tr_finalized (mapGet (routesTestRuns sys) ''r1'') = Some True \<and>
      fst (buildPersona ''r1'' 0 4 sys) = Inl (NotFound ''r1'') \<and>
      personas (personaStore sys) = []"
  by (simp add: route_defs Let_def)

text \<open>
  C2. Eleven click events as the event route stores them should give Practical a score of
  at least 0.3. Evaluated on the run that eleven click requests leave in the store: every
  stored event is named click, and the Practical score is 0.
\<close>

theorem stored_clicks_score_zero:
  "map_option (\<lambda>run. (map ev_name (tr_events run),
         score (computeTraitScores (tr_events run) (tr_transcript run) []) ''Practical''))
     (mapGet (routesTestRuns (snd (serve (replicate 11 (LogEvent ''r1'' ''click'' None None ''u1'', 0, 5))
                                    initialSystem))) ''r1'')
   = Some (replicate 11 ''click'', Some 0)"
  by (simp add: replicate_11 snd_serve_Cons route_defs Let_def score_Practical eventCounts_untyped
        countExceeds_def del: serve.simps(2))

text \<open>
  C3. For any events, transcript and survey responses, the scorer returns a score for
  exactly the eight trait names, each in the interval from 0 to 1; the persona that a
  successful \<open>buildPersona\<close> stores and returns carries such a mapping.
\<close>

theorem traitScores_in_unit_interval:
  "(\<forall>t \<in> set traitNames.
      \<exists>v. score (computeTraitScores events transcript surveyResponses) t = Some v \<and> 0 \<le> v \<and> v \<le> 1) \<and>
   map fst (computeTraitScores events transcript surveyResponses) = traitNames \<and>
   (buildPersona runId rnd now sys = (Inr pd, sys') \<longrightarrow>
      pd_persona pd \<in> set (personas (personaStore sys')) \<and>
      (\<forall>t \<in> set traitNames.
         \<exists>v. score (p_traitScores (pd_persona pd)) t = Some v \<and> 0 \<le> v \<and> v \<le> 1))"
proof (intro conjI ballI impI)
  fix t assume "t \<in> set traitNames"
  then show "\<exists>v. score (computeTraitScores events transcript surveyResponses) t = Some v \<and> 0 \<le> v \<and> v \<le> 1"
    by (rule computeTraitScores_range)
next
  show "map fst (computeTraitScores events transcript surveyResponses) = traitNames"
    by (rule map_fst_computeTraitScores)
next
  assume "buildPersona runId rnd now sys = (Inr pd, sys')"
  then show "pd_persona pd \<in> set (personas (personaStore sys'))"
    by (auto dest: buildPersona_Inr)
next
  fix t assume b: "buildPersona runId rnd now sys = (Inr pd, sys')" and t: "t \<in> set traitNames"
  from buildPersona_scores [OF b] obtain ev tr sv where
    "p_traitScores (pd_persona pd) = computeTraitScores ev tr sv" by blast
  with computeTraitScores_range [OF t]
  show "\<exists>v. score (p_traitScores (pd_persona pd)) t = Some v \<and> 0 \<le> v \<and> v \<le> 1"
    by simp
qed

theorem traitScores_in_unit_interval_witness:
  "''Confident'' \<in> set traitNames \<and>
   (\<exists>v. score (computeTraitScores [] ''sure'' []) ''Confident'' = Some v \<and> 0 \<le> v \<and> v \<le> 1) \<and>
   (\<exists>pd sys'. buildPersona ''r1'' 0 0 (serviceWith ''r1'' (newTestRun ''r1'' ''u1'' 0)) = (Inr pd, sys') \<and>
       pd_persona pd \<in> set (personas (personaStore sys')) \<and>
       (\<exists>v. score (p_traitScores (pd_persona pd)) ''Confident'' = Some v \<and> 0 \<le> v \<and> v \<le> 1))"
proof -
  have t: "''Confident'' \<in> set traitNames" by (simp add: traitNames_def)
  obtain pd sys' where
    b: "buildPersona ''r1'' 0 0 (serviceWith ''r1'' (newTestRun ''r1'' ''u1'' 0)) = (Inr pd, sys')"
    using buildPersona_known [OF mapGet_serviceWith] by blast
  from traitScores_in_unit_interval [of "[]" "''sure''" "[]" "''r1''" 0 0
         "serviceWith ''r1'' (newTestRun ''r1'' ''u1'' 0)" pd sys'] t b
  show ?thesis by blast
qed

text \<open>
  C6. When the persona service finds no run under the identifier, \<open>buildPersona\<close> rejects
  with NotFound and returns the state as it was, so the persona store is unchanged. In
  any state that requests have led to, this is the case for an identifier absent from the
  routes' store.
\<close>

theorem buildPersona_unknown_run:
  "(mapGet (serviceTestRuns sys) runId = None \<longrightarrow>
      buildPersona runId rnd now sys = (Inl (NotFound runId), sys)) \<and>
   (mapGet (routesTestRuns (snd (serve reqs initialSystem))) runId = None \<longrightarrow>
      buildPersona runId rnd now (snd (serve reqs initialSystem)) =
        (Inl (NotFound runId), snd (serve reqs initialSystem)))"
  by (simp add: buildPersona_def served_service_empty)

theorem buildPersona_unknown_run_witness:
  "mapGet (serviceTestRuns initialSystem) ''r9'' = None \<and>
   buildPersona ''r9'' 0 0 initialSystem = (Inl (NotFound ''r9''), initialSystem) \<and>
   personas (personaStore (snd (buildPersona ''r9'' 0 0 initialSystem))) = personas (personaStore initialSystem) \<and>
   mapGet (routesTestRuns (snd (serve [(LogEvent ''r1'' ''click'' None None ''u1'', 0, 1)] initialSystem))) ''r9'' = None \<and>
   fst (buildPersona ''r9'' 0 0 (snd (serve [(LogEvent ''r1'' ''click'' None None ''u1'', 0, 1)] initialSystem)))
     = Inl (NotFound ''r9'')"
proof -
  have a: "mapGet (serviceTestRuns initialSystem) ''r9'' = None"
    by (simp add: initialSystem_def newMap_def mapGet_def)
  have b: "mapGet (routesTestRuns (snd (serve [(LogEvent ''r1'' ''click'' None None ''u1'', 0, 1)] initialSystem))) ''r9'' = None"
    by (simp add: route_defs Let_def)
  from buildPersona_unknown_run [of initialSystem "''r9''" 0 0 "[(LogEvent ''r1'' ''click'' None None ''u1'', 0, 1)]"] a b
  show ?thesis by simp
qed


section \<open>The Confident score\<close>










section \<open>Persona identifiers\<close>

lemma of_char_digitChar: "d < 10 \<Longrightarrow> (of_char (digitChar d) :: nat) = 48 + d"
  by (simp add: digitChar_def)

lemma fromDigits_snoc: "fromDigits (s @ [c]) = 10 * fromDigits s + (of_char c - 48)"
  by (simp add: fromDigits_def)

lemma fromDigits_toString: "fromDigits (toString n) = n"
proof (induction n rule: toString.induct)
  case (1 n)
  show ?case
  proof (cases "n < 10")
    case True
    then show ?thesis
      by (subst toString.simps) (simp add: fromDigits_def of_char_digitChar)
  next
    case False
    with 1 have "fromDigits (toString (n div 10)) = n div 10" by simp
    with False show ?thesis
      by (subst toString.simps) (simp add: fromDigits_snoc of_char_digitChar)
  qed
qed

lemma toString_inj: "toString m = toString n \<Longrightarrow> m = n"
  by (metis fromDigits_toString)

lemma storeInv_new: "storeInv newPersonaStore"
  by (simp add: storeInv_def newPersonaStore_def)

lemma create_result:
  "p_id (fst (create data now st)) = toString (nextId st) \<and>
   p_createdAt (fst (create data now st)) = now \<and>
   p_traitScores (fst (create data now st)) = d_traitScores data \<and>
   personas (snd (create data now st)) = personas st @ [fst (create data now st)] \<and>
   nextId (snd (create data now st)) = Suc (nextId st)"
  by (simp add: create_def Let_def)

lemma storeInv_create:
  assumes "storeInv st"
  shows "storeInv (snd (create data now st))"
proof -
  let ?p = "fst (create data now st)"
  have idp: "idNum ?p = nextId st"
    by (simp add: idNum_def create_result fromDigits_toString)
  from assms show ?thesis
    unfolding storeInv_def
    by (auto simp: create_result sorted_wrt_append idp less_Suc_eq)
qed

lemma idNum_assign [simp]: "idNum (assign p u now) = idNum p"
  by (simp add: idNum_def assign_def)

lemma p_id_assign [simp]: "p_id (assign p u now) = p_id p"
  by (simp add: assign_def)

lemma findIndex_Some: "findIndex P xs = Some k \<Longrightarrow> k < length xs \<and> P (xs ! k)"
  by (induction xs arbitrary: k) (auto split: if_splits)

lemma nextId_update [simp]: "nextId (snd (update i u now st)) = nextId st"
  by (simp add: update_def Let_def split: option.splits)

lemma nextId_delete [simp]: "nextId (snd (delete i st)) = nextId st"
  by (simp add: delete_def split: option.splits)

lemma storeInv_update:
  assumes "storeInv st"
  shows "storeInv (snd (update i u now st))"
proof (cases "findIndex (\<lambda>p. p_id p = i) (personas st)")
  case None
  with assms show ?thesis by (simp add: update_def)
next
  case (Some k)
  then have k: "k < length (personas st)" by (auto dest: findIndex_Some)
  let ?q = "assign (personas st ! k) u now"
  have m: "map idNum ((personas st)[k := ?q]) = map idNum (personas st)"
    by (simp add: map_update list_update_same_conv k)
  have "\<forall>p \<in> set ((personas st)[k := ?q]). 1 \<le> idNum p \<and> idNum p < nextId st \<and> p_id p = toString (idNum p)"
  proof
    fix p assume "p \<in> set ((personas st)[k := ?q])"
    then have "p = ?q \<or> p \<in> set (personas st)"
      using set_update_subset_insert [of "personas st" k ?q] by auto
    moreover have "personas st ! k \<in> set (personas st)" using k by simp
    ultimately show "1 \<le> idNum p \<and> idNum p < nextId st \<and> p_id p = toString (idNum p)"
      using assms unfolding storeInv_def by auto
  qed
  with assms m show ?thesis
    by (simp add: storeInv_def update_def Some Let_def)
qed

lemma sorted_wrt_remove_nth:
  "sorted_wrt R xs \<Longrightarrow> sorted_wrt R (take k xs @ drop (Suc k) xs)"
proof -
  assume s: "sorted_wrt R xs"
  from s have a: "sorted_wrt R (take k xs)" and b: "sorted_wrt R (drop k xs)"
    and c: "\<forall>x\<in>set (take k xs). \<forall>y\<in>set (drop k xs). R x y"
    using sorted_wrt_append [of R "take k xs" "drop k xs"]
    unfolding append_take_drop_id by blast+
  have sub: "set (drop (Suc k) xs) \<subseteq> set (drop k xs)"
    by (rule set_drop_subset_set_drop) simp
  have "sorted_wrt R (drop (Suc k) xs)"
    using s by (rule sorted_wrt_drop)
  with a c sub show ?thesis by (auto simp: sorted_wrt_append)
qed

lemma storeInv_delete:
  assumes "storeInv st"
  shows "storeInv (snd (delete i st))"
proof (cases "findIndex (\<lambda>p. p_id p = i) (personas st)")
  case None
  with assms show ?thesis by (simp add: delete_def)
next
  case (Some k)
  have "set (take k (personas st) @ drop (Suc k) (personas st)) \<subseteq> set (personas st)"
    by (auto dest: in_set_takeD in_set_dropD)
  moreover have "sorted_wrt (<) (map idNum (take k (personas st) @ drop (Suc k) (personas st)))"
    using assms sorted_wrt_remove_nth [of "(<)" "map idNum (personas st)" k]
    by (simp add: storeInv_def take_map drop_map)
  ultimately show ?thesis
    using assms by (auto simp: storeInv_def delete_def Some)
qed

lemma fst_runStore_Cons:
  "fst (runStore ((opn, now) # rest) st) =
     fst (applyOp opn now st) @ fst (runStore rest (snd (applyOp opn now st)))"
  by (simp split: prod.splits)

lemma snd_runStore_Cons:
  "snd (runStore ((opn, now) # rest) st) = snd (runStore rest (snd (applyOp opn now st)))"
  by (simp split: prod.splits)

lemma applyOp_inv:
  assumes "storeInv st"
  shows "storeInv (snd (applyOp opn now st)) \<and>
         nextId (snd (applyOp opn now st)) = nextId st + length (fst (applyOp opn now st)) \<and>
         map p_id (fst (applyOp opn now st)) =
           map toString [nextId st ..< nextId st + length (fst (applyOp opn now st))]"
proof (cases opn)
  case (Create data)
  have "applyOp opn now st = ([fst (create data now st)], snd (create data now st))"
    by (simp add: Create split: prod.splits)
  with assms show ?thesis
    by (simp add: storeInv_create create_result)
next
  case (Update i u)
  with assms show ?thesis by (simp add: storeInv_update)
next
  case (Delete i)
  with assms show ?thesis by (simp add: storeInv_delete)
qed

lemma runStore_inv:
  assumes "storeInv st"
  shows "storeInv (snd (runStore ops st)) \<and>
         nextId (snd (runStore ops st)) = nextId st + length (fst (runStore ops st)) \<and>
         map p_id (fst (runStore ops st)) =
           map toString [nextId st ..< nextId st + length (fst (runStore ops st))]"
  using assms
proof (induction ops arbitrary: st)
  case Nil
  then show ?case by simp
next
  case (Cons x ops)
  obtain opn now where x: "x = (opn, now)" by (cases x)
  let ?c = "fst (applyOp opn now st)" and ?st = "snd (applyOp opn now st)"
  let ?cs = "fst (runStore ops ?st)"
  from applyOp_inv [OF Cons.prems, of opn now]
  have a: "storeInv ?st" and b: "nextId ?st = nextId st + length ?c"
    and c: "map p_id ?c = map toString [nextId st ..< nextId st + length ?c]" by blast+
  from Cons.IH [OF a]
  have d: "storeInv (snd (runStore ops ?st))"
    and e: "nextId (snd (runStore ops ?st)) = nextId ?st + length ?cs"
    and f: "map p_id ?cs = map toString [nextId ?st ..< nextId ?st + length ?cs]" by blast+
  have "[nextId st ..< nextId st + (length ?c + length ?cs)] =
        [nextId st ..< nextId st + length ?c] @ [nextId st + length ?c ..< nextId st + length ?c + length ?cs]"
    by (metis add.assoc le_add1 upt_add_eq_append)
  with b c d e f show ?case
    unfolding x fst_runStore_Cons snd_runStore_Cons by simp
qed

lemma distinct_map_toString: "distinct (map toString [m ..< n])"
  by (auto simp: distinct_map inj_on_def dest: toString_inj)

text \<open>
  C9. From the new store, after any sequence of create, update and delete calls: the
  personas created so far carry the decimal strings of 1, 2, 3, ... in the order of their
  creation, these are pairwise different, the counter is one more than their number, and
  the stored personas have pairwise different identifiers, all among those created.
\<close>

theorem persona_ids_unique_increasing:
  "map p_id (fst (runStore ops newPersonaStore)) =
     map toString [1 ..< Suc (length (fst (runStore ops newPersonaStore)))] \<and>
   distinct (map p_id (fst (runStore ops newPersonaStore))) \<and>
   nextId (snd (runStore ops newPersonaStore)) = Suc (length (fst (runStore ops newPersonaStore))) \<and>
   distinct (map p_id (personas (snd (runStore ops newPersonaStore)))) \<and>
   set (map p_id (personas (snd (runStore ops newPersonaStore))))
     \<subseteq> set (map p_id (fst (runStore ops newPersonaStore)))"
proof -
  let ?cs = "fst (runStore ops newPersonaStore)" and ?st = "snd (runStore ops newPersonaStore)"
  from runStore_inv [OF storeInv_new, of ops]
  have inv: "storeInv ?st" and n: "nextId ?st = Suc (length ?cs)"
    and ids: "map p_id ?cs = map toString [1 ..< Suc (length ?cs)]"
    by (simp_all add: newPersonaStore_def)
  have d1: "distinct (map p_id ?cs)"
    unfolding ids by (rule distinct_map_toString)
  from inv have "distinct (map idNum (personas ?st))"
    by (simp add: storeInv_def strict_sorted_iff)
  then have d2: "distinct (map p_id (personas ?st))"
    by (auto simp: distinct_map inj_on_def idNum_def)
  have "set (map p_id (personas ?st)) \<subseteq> set (map p_id ?cs)"
  proof
    fix i assume "i \<in> set (map p_id (personas ?st))"
    then obtain p where p: "p \<in> set (personas ?st)" "i = p_id p" by auto
    with inv n have "1 \<le> idNum p" "idNum p < Suc (length ?cs)" "p_id p = toString (idNum p)"
      by (auto simp: storeInv_def)
    then have "p_id p \<in> set (map toString [1 ..< Suc (length ?cs)])"
      by (metis atLeastLessThan_iff image_eqI set_map set_upt)
    with p show "i \<in> set (map p_id ?cs)" by (simp only: ids)
  qed
  with ids d1 n d2 show ?thesis by blast
qed

section \<open>Building twice from one run\<close>

text \<open>With the run in the persona service's own map, two calls in a row store two personas
  with different identifiers and the same derived data.\<close>

lemma buildPersona_twice:
  assumes "mapGet (serviceTestRuns sys) runId = Some testRun"
  shows "\<exists>pd1 sys1 pd2 sys2.
           buildPersona runId rnd1 now1 sys = (Inr pd1, sys1) \<and>
           buildPersona runId rnd2 now2 sys1 = (Inr pd2, sys2) \<and>
           p_id (pd_persona pd1) \<noteq> p_id (pd_persona pd2) \<and>
           p_traitScores (pd_persona pd1) = p_traitScores (pd_persona pd2) \<and>
           p_traitScores (pd_persona pd1) =
             computeTraitScores (tr_events testRun) (tr_transcript testRun)
               (case tr_surveyResponses testRun of None \<Rightarrow> [] | Some rs \<Rightarrow> rs) \<and>
           p_painPoints (pd_persona pd1) = p_painPoints (pd_persona pd2) \<and>
           p_quotes (pd_persona pd1) = p_quotes (pd_persona pd2) \<and>
           p_createdAt (pd_persona pd1) = now1 \<and> p_createdAt (pd_persona pd2) = now2 \<and>
           personas (personaStore sys2) =
             personas (personaStore sys) @ [pd_persona pd1, pd_persona pd2]"
proof -
  have "toString (nextId (personaStore sys)) \<noteq> toString (Suc (nextId (personaStore sys)))"
    using toString_inj by fastforce
  with assms show ?thesis
    by (simp add: buildPersona_def create_def Let_def)
qed


text \<open>
  C8. Two calls of \<open>buildPersona\<close> on a finalized run should store two distinct personas
  with equal trait scores. Evaluated on a run that the event route created and the
  finalize route marked finalized: both calls reject with NotFound and no persona is stored.
\<close>

theorem finalized_run_builds_no_persona:
  "let sys = snd (serve [(LogEvent ''r1'' ''click'' None None ''u1'', 0, 1),
                         (Finalize ''r1'' ''u1'', 0, 2)] initialSystem);
       (res1, sys1) = buildPersona ''r1'' 0 3 sys;
       (res2, sys2) = buildPersona ''r1'' 0 4 sys1
   in map_option tr_finalized (mapGet (routesTestRuns sys) ''r1'') = Some True \<and>
      res1 = Inl (NotFound ''r1'') \<and> res2 = Inl (NotFound ''r1'') \<and>
      personas (personaStore sys2) = []"
  by (simp add: route_defs Let_def)


section \<open>Name generator: the top trait\<close>

lemma hd_insort_key:
  "hd (insort_key f x ys) = (if ys = [] \<or> f x \<le> f (hd ys) then x else hd ys)"
  by (cases ys) auto

lemma sort_key_Nil_iff: "sort_key f xs = [] \<longleftrightarrow> xs = []"
  by (metis length_sort list.size(3) length_0_conv)

lemma hd_sort_key_first_min:
  assumes "xs \<noteq> []"
  shows "\<exists>i < length xs. hd (sort_key f xs) = xs ! i \<and>
           (\<forall>j < length xs. f (xs ! i) \<le> f (xs ! j)) \<and> (\<forall>j < i. f (xs ! i) < f (xs ! j))"
  using assms
proof (induction xs)
  case Nil
  then show ?case by simp
next
  case (Cons x xs)
  show ?case
  proof (cases "xs = []")
    case True
    then show ?thesis by simp
  next
    case False
    from Cons.IH [OF False] obtain i where i: "i < length xs" "hd (sort_key f xs) = xs ! i"
      "\<forall>j < length xs. f (xs ! i) \<le> f (xs ! j)" "\<forall>j < i. f (xs ! i) < f (xs ! j)" by blast
    have h: "hd (sort_key f (x # xs)) = (if f x \<le> f (xs ! i) then x else xs ! i)"
      using False i(2) by (simp add: hd_insort_key sort_key_Nil_iff)
    show ?thesis
    proof (cases "f x \<le> f (xs ! i)")
      case True
      have "\<forall>j < length (x # xs). f ((x # xs) ! 0) \<le> f ((x # xs) ! j)"
      proof (intro allI impI)
        fix j assume "j < length (x # xs)"
        then show "f ((x # xs) ! 0) \<le> f ((x # xs) ! j)"
          using True i(3) by (cases j) (auto intro: order_trans)
      qed
      with h True show ?thesis by (intro exI [of _ 0]) simp
    next
      case False
      have a: "\<forall>j < length (x # xs). f ((x # xs) ! Suc i) \<le> f ((x # xs) ! j)"
      proof (intro allI impI)
        fix j assume "j < length (x # xs)"
        then show "f ((x # xs) ! Suc i) \<le> f ((x # xs) ! j)"
          using False i(3) by (cases j) auto
      qed
      have b: "\<forall>j < Suc i. f ((x # xs) ! Suc i) < f ((x # xs) ! j)"
      proof (intro allI impI)
        fix j assume "j < Suc i"
        then show "f ((x # xs) ! Suc i) < f ((x # xs) ! j)"
          using False i(4) by (cases j) auto
      qed
      from h False a b i(1) show ?thesis by (intro exI [of _ "Suc i"]) simp
    qed
  qed
qed

lemma length_toLowerCase [simp]: "length (toLowerCase s) = length s"
  by (simp add: toLowerCase_def)

text \<open>
  C7. For a score mapping whose keys are the eight trait names and a random index below
  16, the generated name is the first name at that index, " the ", and the lower-cased
  name of a trait whose score is maximal and strictly greater than the score of every
  trait before it in insertion order; that trait is one of the eight.
\<close>

theorem generatePersonaName_top_trait:
  assumes "set (map fst traitScores) = set traitNames" and "rnd < 16"
  shows "\<exists>i < length traitScores.
           generatePersonaName traitScores rnd =
             names ! rnd @ '' the '' @ toLowerCase (fst (traitScores ! i)) \<and>
           names ! rnd \<in> set names \<and> fst (traitScores ! i) \<in> set traitNames \<and>
           (\<forall>j < length traitScores. snd (traitScores ! j) \<le> snd (traitScores ! i)) \<and>
           (\<forall>j < i. snd (traitScores ! j) < snd (traitScores ! i))"
proof -
  have "set traitNames \<noteq> {}" by (simp add: traitNames_def)
  with assms(1) have ne: "traitScores \<noteq> []" by auto
  let ?f = "\<lambda>(k :: string, v :: rat). - v"
  from hd_sort_key_first_min [OF ne, of ?f] obtain i where i: "i < length traitScores"
    "hd (sort_key ?f traitScores) = traitScores ! i"
    "\<forall>j < length traitScores. ?f (traitScores ! i) \<le> ?f (traitScores ! j)"
    "\<forall>j < i. ?f (traitScores ! i) < ?f (traitScores ! j)" by blast
  have sne: "sort_key ?f traitScores \<noteq> []" using ne by (simp add: sort_key_Nil_iff)
  then obtain y ys where ys: "sort_key ?f traitScores = y # ys"
    by (cases "sort_key ?f traitScores") auto
  with i(2) have y: "y = traitScores ! i" by simp
  have "fst (traitScores ! i) \<in> set (map fst traitScores)" using i(1) by simp
  with assms(1) have mem: "fst (traitScores ! i) \<in> set traitNames" by simp
  then have "fst (traitScores ! i) \<noteq> []" by (auto simp: traitNames_def)
  then have lowne: "toLowerCase (fst (traitScores ! i)) \<noteq> []"
    by (metis length_toLowerCase length_0_conv)
  have nm: "rnd < length names" using assms(2) by (simp add: names_def)
  have gen: "generatePersonaName traitScores rnd =
               names ! rnd @ '' the '' @ toLowerCase (fst (traitScores ! i))"
    using nm lowne by (simp add: generatePersonaName_def sortByScoreDesc_def ys y Let_def)
  have a: "\<forall>j < length traitScores. snd (traitScores ! j) \<le> snd (traitScores ! i)"
    using i(3) by (auto simp: case_prod_beta)
  have b: "\<forall>j < i. snd (traitScores ! j) < snd (traitScores ! i)"
    using i(4) by (auto simp: case_prod_beta)
  from gen nm mem a b i(1) show ?thesis by auto
qed

text \<open>With "sure" in the transcript the top trait is Confident, the fifth key.\<close>

theorem generatePersonaName_top_trait_witness:
  "set (map fst (computeTraitScores [] ''sure'' [])) = set traitNames \<and> (3 :: nat) < 16 \<and>
   generatePersonaName (computeTraitScores [] ''sure'' []) 3 = ''Taylor the confident'' \<and>
   (\<exists>i < length (computeTraitScores [] ''sure'' []).
      generatePersonaName (computeTraitScores [] ''sure'' []) 3 =
        names ! 3 @ '' the '' @ toLowerCase (fst (computeTraitScores [] ''sure'' [] ! i)) \<and>
      fst (computeTraitScores [] ''sure'' [] ! i) \<in> set traitNames)"
proof -
  have a: "set (map fst (computeTraitScores [] ''sure'' [])) = set traitNames"
    by (simp only: map_fst_computeTraitScores)
  have b: "(3 :: nat) < 16" by simp
  have c: "generatePersonaName (computeTraitScores [] ''sure'' []) 3 = ''Taylor the confident''"
    by code_simp
  from generatePersonaName_top_trait [OF a b] a b c show ?thesis by blast
qed

section \<open>Persona lookups\<close>

lemma sorted_newestFirst:
  "sorted_wrt (\<lambda>a b. p_createdAt b \<le> p_createdAt a) (newestFirst ps)"
proof -
  have "sorted (map (\<lambda>p. - p_createdAt p) (newestFirst ps))"
    unfolding newestFirst_def by (rule sorted_sort_key)
  then show ?thesis by (simp add: sorted_map)
qed

lemma mset_newestFirst: "mset (newestFirst ps) = mset ps"
  by (simp add: newestFirst_def)

lemma set_newestFirst: "set (newestFirst ps) = set ps"
  by (simp add: newestFirst_def)

lemma stable_newestFirst:
  "filter (\<lambda>p. p_createdAt p = t) (newestFirst ps) = filter (\<lambda>p. p_createdAt p = t) ps"
proof -
  have "filter (\<lambda>p. - p_createdAt p = - t) (sort_key (\<lambda>p. - p_createdAt p) ps)
        = filter (\<lambda>p. - p_createdAt p = - t) ps"
    by (rule sort_key_stable)
  then show ?thesis by (simp add: newestFirst_def)
qed

text \<open>
  C10. \<open>getByRunId\<close> returns the first persona of the array with the run identifier, which
  in a store reached by create, update and delete calls is the one with the smallest
  identifier number among them (the earliest created). \<open>getByUserId\<close> returns the user's
  personas ordered by creation time, newest first, personas of equal time in insertion order;
  \<open>getLatestByUserId\<close> returns the first of that list, a persona of the user with the
  greatest creation time.
\<close>

theorem lookup_orders:
  "(getByRunId st runId = None \<longleftrightarrow> (\<forall>p \<in> set (personas st). p_runId p \<noteq> runId)) \<and>
   (\<forall>p. getByRunId st runId = Some p \<longrightarrow>
      (\<exists>i < length (personas st). personas st ! i = p \<and> p_runId p = runId \<and>
          (\<forall>j < i. p_runId (personas st ! j) \<noteq> runId))) \<and>
   (\<forall>p q. getByRunId (snd (runStore ops newPersonaStore)) runId = Some p \<and>
      q \<in> set (personas (snd (runStore ops newPersonaStore))) \<and> p_runId q = runId \<longrightarrow>
      idNum p \<le> idNum q) \<and>
   sorted_wrt (\<lambda>a b. p_createdAt b \<le> p_createdAt a) (getByUserId st userId) \<and>
   mset (getByUserId st userId) = mset (filter (\<lambda>p. p_userId p = userId) (personas st)) \<and>
   (\<forall>t. filter (\<lambda>p. p_createdAt p = t) (getByUserId st userId) =
        filter (\<lambda>p. p_createdAt p = t) (filter (\<lambda>p. p_userId p = userId) (personas st))) \<and>
   getLatestByUserId st userId =
     (case getByUserId st userId of [] \<Rightarrow> None | p # rest \<Rightarrow> Some p) \<and>
   (\<forall>p. getLatestByUserId st userId = Some p \<longrightarrow>
      p \<in> set (personas st) \<and> p_userId p = userId \<and>
      (\<forall>q \<in> set (personas st). p_userId q = userId \<longrightarrow> p_createdAt q \<le> p_createdAt p))"
proof (intro conjI allI impI)
  show "getByRunId st runId = None \<longleftrightarrow> (\<forall>p \<in> set (personas st). p_runId p \<noteq> runId)"
    by (auto simp: getByRunId_def find_None_iff)
next
  fix p assume "getByRunId st runId = Some p"
  then show "\<exists>i < length (personas st). personas st ! i = p \<and> p_runId p = runId \<and>
          (\<forall>j < i. p_runId (personas st ! j) \<noteq> runId)"
    by (auto simp: getByRunId_def find_Some_iff)
next
  fix p q
  let ?st = "snd (runStore ops newPersonaStore)"
  assume h: "getByRunId ?st runId = Some p \<and> q \<in> set (personas ?st) \<and> p_runId q = runId"
  then obtain i where i: "i < length (personas ?st)" "personas ?st ! i = p"
    "\<forall>j < i. p_runId (personas ?st ! j) \<noteq> runId"
    by (auto simp: getByRunId_def find_Some_iff)
  from h obtain k where k: "k < length (personas ?st)" "personas ?st ! k = q"
    by (auto simp: in_set_conv_nth)
  have ik: "i \<le> k"
  proof (rule ccontr)
    assume "\<not> i \<le> k"
    then have "k < i" by simp
    with i(3) have "p_runId (personas ?st ! k) \<noteq> runId" by blast
    with k h show False by simp
  qed
  have "storeInv ?st" using runStore_inv [OF storeInv_new] by blast
  then have srt: "sorted_wrt (<) (map idNum (personas ?st))" by (simp add: storeInv_def)
  show "idNum p \<le> idNum q"
  proof (cases "i = k")
    case True
    with i k show ?thesis by simp
  next
    case False
    with ik have "i < k" by simp
    with srt k(1) have "map idNum (personas ?st) ! i < map idNum (personas ?st) ! k"
      by (simp add: sorted_wrt_iff_nth_less)
    with i k show ?thesis by simp
  qed
next
  show "sorted_wrt (\<lambda>a b. p_createdAt b \<le> p_createdAt a) (getByUserId st userId)"
    unfolding getByUserId_def by (rule sorted_newestFirst)
next
  show "mset (getByUserId st userId) = mset (filter (\<lambda>p. p_userId p = userId) (personas st))"
    unfolding getByUserId_def by (rule mset_newestFirst)
next
  fix t
  show "filter (\<lambda>p. p_createdAt p = t) (getByUserId st userId) =
        filter (\<lambda>p. p_createdAt p = t) (filter (\<lambda>p. p_userId p = userId) (personas st))"
    unfolding getByUserId_def by (rule stable_newestFirst)
next
  show "getLatestByUserId st userId =
     (case getByUserId st userId of [] \<Rightarrow> None | p # rest \<Rightarrow> Some p)"
    by (simp add: getLatestByUserId_def getByUserId_def)
next
  fix p assume l: "getLatestByUserId st userId = Some p"
  let ?ys = "newestFirst (filter (\<lambda>p. p_userId p = userId) (personas st))"
  from l obtain rest where ys: "?ys = p # rest"
    by (auto simp: getLatestByUserId_def split: list.splits)
  have s: "set ?ys = {q \<in> set (personas st). p_userId q = userId}"
    by (simp add: set_newestFirst)
  from ys have "p \<in> set ?ys" by simp
  with s show "p \<in> set (personas st)" and "p_userId p = userId" by auto
  show "\<forall>q \<in> set (personas st). p_userId q = userId \<longrightarrow> p_createdAt q \<le> p_createdAt p"
  proof (intro ballI impI)
    fix q assume "q \<in> set (personas st)" "p_userId q = userId"
    with s have "q \<in> set ?ys" by simp
    moreover have "sorted_wrt (\<lambda>a b. p_createdAt b \<le> p_createdAt a) (p # rest)"
      using sorted_newestFirst [of "filter (\<lambda>p. p_userId p = userId) (personas st)"] ys by simp
    ultimately show "p_createdAt q \<le> p_createdAt p"
      unfolding ys by auto
  qed
qed

theorem lookup_orders_witness:
  "\<exists>p1 p2. personas twoPersonas = [p1, p2] \<and>
     getByRunId twoPersonas ''r1'' = Some p1 \<and> p_runId p2 = ''r1'' \<and> idNum p1 \<le> idNum p2 \<and>
     (\<exists>i < length (personas twoPersonas). personas twoPersonas ! i = p1 \<and>
         (\<forall>j < i. p_runId (personas twoPersonas ! j) \<noteq> ''r1'')) \<and>
     getLatestByUserId twoPersonas ''u1'' = Some p2 \<and> p_userId p1 = ''u1'' \<and>
     p_createdAt p1 \<le> p_createdAt p2"
proof -
  let ?ops = "[(Create sampleData, 10), (Create sampleData, 20)]"
  obtain p1 p2 where ps: "personas twoPersonas = [p1, p2]"
    and f: "p_runId p1 = ''r1''" "p_runId p2 = ''r1''" "p_userId p1 = ''u1''" "p_userId p2 = ''u1''"
           "p_createdAt p1 = 10" "p_createdAt p2 = 20"
    by (simp add: twoPersonas_def sampleData_def newPersonaStore_def create_def Let_def)
  have r: "getByRunId twoPersonas ''r1'' = Some p1"
    by (simp add: getByRunId_def ps f)
  have l: "getLatestByUserId twoPersonas ''u1'' = Some p2"
    by (simp add: getLatestByUserId_def newestFirst_def ps f)
  have q: "p2 \<in> set (personas twoPersonas)" "p1 \<in> set (personas twoPersonas)" by (simp_all add: ps)
  note t = lookup_orders [of twoPersonas "''r1''" ?ops "''u1''", folded twoPersonas_def]
  from t r q f have a: "idNum p1 \<le> idNum p2" by blast
  from t r have b: "\<exists>i < length (personas twoPersonas). personas twoPersonas ! i = p1 \<and>
         (\<forall>j < i. p_runId (personas twoPersonas ! j) \<noteq> ''r1'')" by blast
  from t l q f have c: "p_createdAt p1 \<le> p_createdAt p2" by blast
  from ps r f a b l c show ?thesis by blast
qed

section \<open>Pain point extractor\<close>

lemma painStep_eq:
  "painStep acc s =
     (if hasPainKeyword s \<and> 10 < length (stripQuotes (trim s)) \<and> length (stripQuotes (trim s)) < 200
      then acc @ [stripQuotes (trim s)] else acc)"
  by (simp add: painStep_def hasPainKeyword_def list_ex_iff Let_def)

lemma foldl_painStep:
  "foldl painStep acc xs =
     acc @ map (\<lambda>s. stripQuotes (trim s))
             (filter (\<lambda>s. hasPainKeyword s \<and> 10 < length (stripQuotes (trim s)) \<and>
                           length (stripQuotes (trim s)) < 200) xs)"
  by (induction xs arbitrary: acc) (simp_all add: painStep_eq)

lemma splitEach_nonempty: "splitEach s \<noteq> []"
  by (induction s) (auto split: list.splits)

lemma splitRuns_nonempty: "splitRuns b s \<noteq> []"
  by (induction s arbitrary: b) (auto split: list.splits)

lemma filter_splitRuns:
  assumes "\<not> Q []"
  shows "filter Q (splitRuns b s) = filter Q (splitEach s) \<and>
         (\<not> b \<longrightarrow> hd (splitRuns b s) = hd (splitEach s) \<and>
                  filter Q (tl (splitRuns b s)) = filter Q (tl (splitEach s)))"
proof (induction s arbitrary: b)
  case Nil
  show ?case by simp
next
  case (Cons c cs)
  show ?case
  proof (cases "isTerminator c")
    case True
    with Cons.IH [of True] assms show ?thesis by simp
  next
    case False
    obtain f fs where r: "splitRuns False cs = f # fs"
      using splitRuns_nonempty [of False cs] by (cases "splitRuns False cs") auto
    obtain g gs where e: "splitEach cs = g # gs"
      using splitEach_nonempty [of cs] by (cases "splitEach cs") auto
    from Cons.IH [of False] r e have "f = g" "filter Q fs = filter Q gs" by simp_all
    with False r e show ?thesis by simp
  qed
qed

lemma filter_splitSentences:
  "\<not> Q [] \<Longrightarrow> filter Q (splitSentences s) = filter Q (splitEach s)"
  by (simp add: splitSentences_def filter_splitRuns)

lemma trim_Nil [simp]: "trim [] = []"
  by (simp add: trim_def)

lemma extractPainPoints_eq: "extractPainPoints transcript = painPointsStrict transcript"
  by (simp add: extractPainPoints_def painPointsStrict_def foldl_painStep filter_splitSentences)

text \<open>
  C5, amended. The extractor returns, in transcript order, the first three at most of the
  sentences (split at the terminators, fragments of at most 10 characters after trimming
  dropped) whose lower-cased text contains a pain keyword and whose trimmed, quote-stripped
  text has more than 10 and fewer than 200 characters. It is total, returns at most three
  sentences, and returns none when no sentence contains a keyword.
\<close>

theorem extractPainPoints_spec:
  "extractPainPoints transcript = painPointsStrict transcript \<and>
   length (extractPainPoints transcript) \<le> 3 \<and>
   ((\<forall>s \<in> set (splitEach transcript). \<not> hasPainKeyword s) \<longrightarrow> extractPainPoints transcript = [])"
proof (intro conjI impI)
  show "extractPainPoints transcript = painPointsStrict transcript"
    by (rule extractPainPoints_eq)
  show "length (extractPainPoints transcript) \<le> 3"
    by (simp add: extractPainPoints_def)
  assume "\<forall>s \<in> set (splitEach transcript). \<not> hasPainKeyword s"
  then have "filter (\<lambda>s. hasPainKeyword s \<and> 10 < length (stripQuotes (trim s)) \<and>
                     length (stripQuotes (trim s)) < 200)
          (filter (\<lambda>s. 10 < length (trim s)) (splitEach transcript)) = []"
    by (auto simp: filter_empty_conv)
  then show "extractPainPoints transcript = []"
    by (simp only: extractPainPoints_eq painPointsStrict_def list.map take.simps)
qed

lemmas text_defs = splitSentences_def isTerminator_def trim_def isWhiteSpace_def stripQuotes_def
  stripLeadingQuote_def stripTrailingQuote_def isQuote_def toLowerCase_def toLowerChar_def
  painKeywords_def hasPainKeyword_def

text \<open>
  C5, as stated: fragments shorter than 10 characters are dropped and a sentence of 10 to
  200 characters is kept. The sentence "It is hard" has 10 characters and a keyword; as
  stated it is returned, the extractor returns nothing.
\<close>

theorem ten_character_sentence:
  "extractPainPoints ''It is hard.'' = [] \<and> painPointsStated ''It is hard.'' = [''It is hard''] \<and>
   extractPainPoints ''It is hard.'' \<noteq> painPointsStated ''It is hard.''"
  by (simp add: extractPainPoints_def painPointsStated_def text_defs)

theorem extractPainPoints_spec_witness:
  "extractPainPoints ''It is so hard. This is a problem! ok?'' =
     painPointsStrict ''It is so hard. This is a problem! ok?'' \<and>
   extractPainPoints ''It is so hard. This is a problem! ok?'' = [''It is so hard'', ''This is a problem''] \<and>
   filter hasPainKeyword (splitEach ''All went well today.'') = [] \<and>
   extractPainPoints ''All went well today.'' = []"
proof -
  have h: "\<forall>s \<in> set (splitEach ''All went well today.''). \<not> hasPainKeyword s"
    by (simp add: text_defs)
  have v: "extractPainPoints ''It is so hard. This is a problem! ok?'' =
             [''It is so hard'', ''This is a problem'']"
    by (simp add: extractPainPoints_def painStep_def text_defs)
  from h have e: "filter hasPainKeyword (splitEach ''All went well today.'') = []"
    by (simp only: filter_empty_conv)
  from extractPainPoints_spec [of "''It is so hard. This is a problem! ok?''"]
       extractPainPoints_spec [of "''All went well today.''"] h v e
  show ?thesis by blast
qed

end
